theory Spec2Isabelle
  imports Main "HOL-Library.Word"
begin

unbundle bit_operations_syntax

section \<open>Machine types\<close>

text \<open>
  The firmware is built for an AVR board with native USB (\<^verbatim>\<open>HID.h\<close>, \<^verbatim>\<open>PROGMEM\<close>):
  \<^verbatim>\<open>int\<close> has 16 bits and \<^verbatim>\<open>long\<close> has 32. The fixed-width types are words of
  their width; \<^verbatim>\<open>int8_t\<close> is an 8-bit word read with \<open>sint\<close>.
\<close>

type_synonym uint8_t = "8 word"
type_synonym int8_t = "8 word"
type_synonym uint16_t = "16 word"
type_synonym uint32_t = "32 word"
type_synonym c_int = "16 word"

section \<open>serial\_symbols.h\<close>

definition BAUD_RATE :: nat where
  "BAUD_RATE = 500000"

definition FRAME_START :: uint8_t where
  "FRAME_START = 0xAB"

definition MAX_DATA_LENGTH :: uint8_t where
  "MAX_DATA_LENGTH = 6"

definition MAX_FRAME_LENGTH :: uint8_t where
  "MAX_FRAME_LENGTH = MAX_DATA_LENGTH + 2"

datatype FrameType =
    FRAME_TYPE_REL_MOUSE_MOVE
  | FRAME_TYPE_MOUSE_MOVE
  | FRAME_TYPE_MOUSE_SCROLL
  | FRAME_TYPE_MOUSE_PRESS
  | FRAME_TYPE_MOUSE_RELEASE
  | FRAME_TYPE_MOUSE_RESOLUTION
  | FRAME_TYPE_KEY_PRESS
  | FRAME_TYPE_KEY_RELEASE
  | FRAME_TYPE_UNKNOWN

text \<open>The enumerators' values, as the enum declaration assigns them.\<close>

primrec FrameType_code :: "FrameType \<Rightarrow> uint8_t" where
  "FrameType_code FRAME_TYPE_REL_MOUSE_MOVE = 0xA0"
| "FrameType_code FRAME_TYPE_MOUSE_MOVE = 0xAA"
| "FrameType_code FRAME_TYPE_MOUSE_SCROLL = 0xAB"
| "FrameType_code FRAME_TYPE_MOUSE_PRESS = 0xAC"
| "FrameType_code FRAME_TYPE_MOUSE_RELEASE = 0xAD"
| "FrameType_code FRAME_TYPE_MOUSE_RESOLUTION = 0xAE"
| "FrameType_code FRAME_TYPE_KEY_PRESS = 0xBB"
| "FrameType_code FRAME_TYPE_KEY_RELEASE = 0xBC"
| "FrameType_code FRAME_TYPE_UNKNOWN = 0xFF"

definition RELEASE_ALL_KEYS :: uint8_t where
  "RELEASE_ALL_KEYS = 0x00"

section \<open>AbsMouse.h, AbsMouse.cpp\<close>

definition MOUSE_LEFT :: uint8_t where
  "MOUSE_LEFT = 0x01"

definition MOUSE_RIGHT :: uint8_t where
  "MOUSE_RIGHT = 0x02"

definition MOUSE_MIDDLE :: uint8_t where
  "MOUSE_MIDDLE = 0x04"

text \<open>
  The private members of \<^verbatim>\<open>class AbsMouse_\<close>. A field \<^verbatim>\<open>_f\<close> of the class is
  the field \<open>m_f\<close> of the record.
\<close>

record AbsMouse_t =
  m_buttons :: uint8_t
  m_scroll :: int8_t
  m_x :: uint16_t
  m_y :: uint16_t
  m_width :: uint32_t
  m_height :: uint32_t
  m_autoReport :: bool

text \<open>
  The USB stack behind \<^verbatim>\<open>HID()\<close> is not part of the repository. It is the list of
  the reports handed to it, oldest first: each is the report id and the \<open>len\<close> bytes
  read from the buffer.
\<close>

type_synonym hid_report = "uint8_t \<times> uint8_t list"
type_synonym HID = "hid_report list"

definition SendReport :: "uint8_t \<Rightarrow> uint8_t list \<Rightarrow> nat \<Rightarrow> HID \<Rightarrow> HID" where
  "SendReport rid data len hid = hid @ [(rid, take len data)]"

text \<open>
  A division by zero is undefined behaviour in C++; the model makes it an error value.
\<close>

datatype error = DivisionByZero

text \<open>
  The constructor's member initialisers. Registering the report descriptor with the USB
  stack sends no report.
\<close>

definition AbsMouse_ctor :: AbsMouse_t where
  "AbsMouse_ctor =
     \<lparr>m_buttons = 0, m_scroll = 0, m_x = 0, m_y = 0,
      m_width = 1920, m_height = 1080, m_autoReport = False\<rparr>"

text \<open>\<^verbatim>\<open>init\<close> stores its 16-bit arguments in the 32-bit members.\<close>

definition init :: "AbsMouse_t \<Rightarrow> uint16_t \<Rightarrow> uint16_t \<Rightarrow> bool \<Rightarrow> AbsMouse_t" where
  "init m width height autoReport =
     m\<lparr>m_width := ucast width, m_height := ucast height, m_autoReport := autoReport\<rparr>"

text \<open>
  The default arguments of the declaration
  \<^verbatim>\<open>void init(uint16_t width = 32767, uint16_t height = 32767, bool autoReport = true)\<close>.
\<close>

definition init_default :: "AbsMouse_t \<Rightarrow> AbsMouse_t" where
  "init_default m = init m 32767 32767 True"

text \<open>
  \<^verbatim>\<open>_x & 0xFF\<close> and \<^verbatim>\<open>(_x >> 8) & 0xFF\<close> are computed at the width of
  \<^verbatim>\<open>_x\<close> and narrowed to a byte by the assignment.
\<close>

definition report :: "AbsMouse_t \<Rightarrow> HID \<Rightarrow> AbsMouse_t \<times> HID" where
  "report m hid =
     (let buffer =
            [m_buttons m,
             ucast (m_x m AND 0xFF),
             ucast (drop_bit 8 (m_x m) AND 0xFF),
             ucast (m_y m AND 0xFF),
             ucast (drop_bit 8 (m_y m) AND 0xFF),
             m_scroll m];
          hid' = SendReport 1 buffer 6 hid
      in (m\<lparr>m_scroll := 0\<rparr>, hid'))"

text \<open>
  \<^verbatim>\<open>32767l * ((uint32_t)x)\<close> is a product of 32-bit values, divided by the 32-bit
  \<^verbatim>\<open>_width\<close>; the cast to \<^verbatim>\<open>uint16_t\<close> keeps the low 16 bits of the quotient.
\<close>

definition move :: "AbsMouse_t \<Rightarrow> uint16_t \<Rightarrow> uint16_t \<Rightarrow> HID \<Rightarrow> error + AbsMouse_t \<times> HID" where
  "move m x y hid =
     (if m_width m \<noteq> 32767 \<or> m_height m \<noteq> 32767 then
        (if m_width m = 0 then Inl DivisionByZero
         else if m_height m = 0 then Inl DivisionByZero
         else
           (let m' = m\<lparr>m_x := ucast ((32767 * (ucast x :: uint32_t)) div m_width m),
                        m_y := ucast ((32767 * (ucast y :: uint32_t)) div m_height m)\<rparr>
            in Inr (if m_autoReport m' then report m' hid else (m', hid))))
      else
        (let m' = m\<lparr>m_x := x, m_y := y\<rparr>
         in Inr (if m_autoReport m' then report m' hid else (m', hid))))"

definition scroll :: "AbsMouse_t \<Rightarrow> int8_t \<Rightarrow> HID \<Rightarrow> AbsMouse_t \<times> HID" where
  "scroll m wheel hid =
     (let m' = m\<lparr>m_scroll := wheel\<rparr>
      in if m_autoReport m' then report m' hid else (m', hid))"

text \<open>
  \<^verbatim>\<open>_buttons |= button\<close> and \<^verbatim>\<open>_buttons &= ~button\<close> promote both bytes to
  \<^verbatim>\<open>int\<close>, operate there and narrow the result back to a byte.
\<close>

definition press :: "AbsMouse_t \<Rightarrow> uint8_t \<Rightarrow> HID \<Rightarrow> AbsMouse_t \<times> HID" where
  "press m button hid =
     (let m' = m\<lparr>m_buttons := ucast ((ucast (m_buttons m) :: c_int) OR (ucast button :: c_int))\<rparr>
      in if m_autoReport m' then report m' hid else (m', hid))"

definition release :: "AbsMouse_t \<Rightarrow> uint8_t \<Rightarrow> HID \<Rightarrow> AbsMouse_t \<times> HID" where
  "release m button hid =
     (let m' = m\<lparr>m_buttons := ucast ((ucast (m_buttons m) :: c_int) AND NOT (ucast button :: c_int))\<rparr>
      in if m_autoReport m' then report m' hid else (m', hid))"

section \<open>Sequences of adapter operations\<close>

text \<open>
  The public methods of the adapter as commands, and the run of a list of them from a
  state of the adapter and of the USB stack. A run stops at the first error.
\<close>

datatype mouse_op =
    Init uint16_t uint16_t bool
  | Move uint16_t uint16_t
  | Scroll int8_t
  | Press uint8_t
  | Release uint8_t
  | Report

fun step :: "AbsMouse_t \<times> HID \<Rightarrow> mouse_op \<Rightarrow> error + AbsMouse_t \<times> HID" where
  "step (m, hid) (Init width height autoReport) = Inr (init m width height autoReport, hid)"
| "step (m, hid) (Move x y) = move m x y hid"
| "step (m, hid) (Scroll wheel) = Inr (scroll m wheel hid)"
| "step (m, hid) (Press button) = Inr (press m button hid)"
| "step (m, hid) (Release button) = Inr (release m button hid)"
| "step (m, hid) Report = Inr (report m hid)"

fun run :: "AbsMouse_t \<times> HID \<Rightarrow> mouse_op list \<Rightarrow> error + AbsMouse_t \<times> HID" where
  "run s [] = Inr s"
| "run s (a # ops) = (case step s a of Inl e \<Rightarrow> Inl e | Inr s' \<Rightarrow> run s' ops)"

text \<open>The stored coordinates lie in the logical range of the report descriptor.\<close>

definition coords_in_range :: "AbsMouse_t \<Rightarrow> bool" where
  "coords_in_range m = (unat (m_x m) \<le> 32767 \<and> unat (m_y m) \<le> 32767)"

text \<open>
  A list of commands stays within the reference resolution \<open>w\<close> by \<open>h\<close> in force: every
  \<open>Move\<close> passes coordinates up to the resolution of the latest \<open>Init\<close> (or the one
  it starts from), and every \<open>Init\<close> sets a resolution of at least 1 by 1.
\<close>

fun ops_within :: "uint32_t \<Rightarrow> uint32_t \<Rightarrow> mouse_op list \<Rightarrow> bool" where
  "ops_within w h [] = True"
| "ops_within w h (Init width height autoReport # ops) =
     (width \<noteq> 0 \<and> height \<noteq> 0 \<and> ops_within (ucast width) (ucast height) ops)"
| "ops_within w h (Move x y # ops) = (ucast x \<le> w \<and> ucast y \<le> h \<and> ops_within w h ops)"
| "ops_within w h (a # ops) = ops_within w h ops"

fun is_Scroll :: "mouse_op \<Rightarrow> bool" where
  "is_Scroll (Scroll wheel) = True"
| "is_Scroll a = False"

fun is_Init :: "mouse_op \<Rightarrow> bool" where
  "is_Init (Init width height autoReport) = True"
| "is_Init a = False"

fun is_Report :: "mouse_op \<Rightarrow> bool" where
  "is_Report Report = True"
| "is_Report a = False"

section \<open>The frame decoder\<close>

text \<open>
  \<^verbatim>\<open>serial_symbols.h\<close>: ``Length = Data + Checksum. Checksum is XOR checksum of all
  data bytes''.
\<close>

fun xor_checksum :: "uint8_t list \<Rightarrow> uint8_t" where
  "xor_checksum [] = 0"
| "xor_checksum (b # bs) = b XOR xor_checksum bs"

text \<open>
  The frame \<^verbatim>\<open>0xAB <Length> <Data...> <Checksum>\<close> on the wire, for the data bytes
  (the type byte, then the payload).
\<close>

definition encode_frame :: "uint8_t list \<Rightarrow> uint8_t list" where
  "encode_frame data = FRAME_START # of_nat (length data + 1) # data @ [xor_checksum data]"

text \<open>A byte stream with bit \<open>k\<close> of its byte at position \<open>j\<close> flipped.\<close>

definition flip_bit_at :: "uint8_t list \<Rightarrow> nat \<Rightarrow> nat \<Rightarrow> uint8_t list" where
  "flip_bit_at bytes j k = bytes[j := flip_bit k (bytes ! j)]"

datatype DecoderState = AwaitingStart | AwaitingLength | AwaitingData | Complete

record Frame =
  f_type :: uint8_t
  f_payload :: "uint8_t list"
  f_checksum :: uint8_t

record Decoder =
  d_state :: DecoderState
  d_length :: nat
  d_buffer :: "uint8_t list"

definition Decoder_init :: Decoder where
  "Decoder_init = \<lparr>d_state = AwaitingStart, d_length = 0, d_buffer = []\<rparr>"

text \<open>
  Modelled from the spec: the byte-at-a-time frame decoder (the sketch that reads the
  serial port is not among the sources). Section 4.1: in \<open>AwaitingStart\<close> a byte other
  than the start marker is ignored; in \<open>AwaitingLength\<close> a declared length of zero or
  above the maximum data length discards the frame; in \<open>AwaitingData\<close> the decoder
  accumulates the declared number of bytes, the last of which is the checksum: when the
  XOR of the bytes before it equals it, the frame is emitted with the first accumulated
  byte as its type and the bytes between as its payload, and otherwise the frame is
  discarded. A discarded and a completed frame both leave the decoder in
  \<open>AwaitingStart\<close> with the buffer released, so \<open>Complete\<close> is never a resting
  state; a decoder found there starts over.
\<close>

definition decode_byte :: "Decoder \<Rightarrow> uint8_t \<Rightarrow> Decoder \<times> Frame option" where
  "decode_byte d b =
     (case d_state d of
        AwaitingStart \<Rightarrow>
          (if b = FRAME_START then (d\<lparr>d_state := AwaitingLength\<rparr>, None) else (d, None))
      | AwaitingLength \<Rightarrow>
          (if b = 0 \<or> MAX_DATA_LENGTH < b then (Decoder_init, None)
           else (d\<lparr>d_state := AwaitingData, d_length := unat b, d_buffer := []\<rparr>, None))
      | AwaitingData \<Rightarrow>
          (let buf = d_buffer d @ [b] in
           if length buf < d_length d then (d\<lparr>d_buffer := buf\<rparr>, None)
           else if xor_checksum (butlast buf) = b
             then (Decoder_init,
                   Some \<lparr>f_type = hd buf, f_payload = butlast (tl buf), f_checksum = b\<rparr>)
             else (Decoder_init, None))
      | Complete \<Rightarrow>
          (if b = FRAME_START then (Decoder_init\<lparr>d_state := AwaitingLength\<rparr>, None)
           else (Decoder_init, None)))"

text \<open>Feeding a byte stream, with the frames emitted on the way, oldest first.\<close>

fun feed :: "Decoder \<Rightarrow> uint8_t list \<Rightarrow> Decoder \<times> Frame list" where
  "feed d [] = (d, [])"
| "feed d (b # bs) =
     (case decode_byte d b of
        (d', None) \<Rightarrow> feed d' bs
      | (d', Some f) \<Rightarrow> (case feed d' bs of (d'', fs) \<Rightarrow> (d'', f # fs)))"

text \<open>
  Modelled from the spec: the pipeline of section 2 (the dispatcher is not among the
  sources). The dispatcher is invoked on validated frames only, and the output adapter by
  the dispatcher only; \<open>dispatch\<close> gives the adapter actions of one frame (none when
  the frame is dropped), so the actions of a byte stream are those of its frames.
\<close>

definition hid_actions :: "(Frame \<Rightarrow> 'act list) \<Rightarrow> Decoder \<Rightarrow> uint8_t list \<Rightarrow> 'act list" where
  "hid_actions dispatch d bytes = concat (map dispatch (snd (feed d bytes)))"

section \<open>Word arithmetic of the rescaling and of the report bytes\<close>

lemma unat_ucast_16_32: "unat (ucast (x :: uint16_t) :: uint32_t) = unat x"
  by (simp add: unsigned_ucast_eq take_bit_nat_eq_self_iff) (rule order_less_trans[OF unsigned_less], simp)

lemma unat_uint16_lt: "unat (x :: uint16_t) < 65536"
  using unsigned_less[of x, where 'a=nat] by simp

lemma unat_scale_mult: "unat (32767 * (ucast (x :: uint16_t) :: uint32_t)) = 32767 * unat x"
proof -
  have "unat (32767 :: uint32_t) * unat (ucast x :: uint32_t) < 2 ^ LENGTH(32)"
    using unat_uint16_lt[of x] by (simp add: unat_ucast_16_32)
  then have "unat (32767 * (ucast x :: uint32_t)) = unat (32767 :: uint32_t) * unat (ucast x :: uint32_t)"
    by (simp only: unat_mult_lem)
  then show ?thesis by (simp add: unat_ucast_16_32)
qed

lemma unat_rescale:
  "unat (ucast ((32767 * (ucast (x :: uint16_t) :: uint32_t)) div w) :: uint16_t) =
     (32767 * unat x div unat w) mod 65536"
  by (simp add: unsigned_ucast_eq take_bit_eq_mod unat_div unat_scale_mult)

lemma rescale_le:
  assumes "unat x \<le> unat w" "w \<noteq> 0"
  shows "32767 * unat (x :: uint16_t) div unat (w :: uint32_t) \<le> 32767"
proof -
  have "0 < unat w" using assms(2) by (simp add: unat_gt_0)
  moreover have "32767 * unat x \<le> 32767 * unat w" using assms(1) by simp
  ultimately show ?thesis
    by (metis div_le_mono nonzero_mult_div_cancel_right less_numeral_extra(3))
qed

lemma ucast_16_32_eq_0: "((ucast (w :: uint16_t) :: uint32_t) = 0) = (w = 0)"
  using unat_ucast_16_32[of w] by (metis unat_eq_zero)

lemma ucast_and_FF: "(ucast ((x :: uint16_t) AND 0xFF) :: uint8_t) = ucast x"
proof -
  have m: "(0xFF :: uint16_t) = mask 8" by (simp add: mask_eq_exp_minus_1)
  show ?thesis
    unfolding m by (rule bit_word_eqI) (simp add: bit_simps)
qed

lemma little_endian_bytes:
  "unat (ucast (x :: uint16_t) :: uint8_t) + 256 * unat (ucast (drop_bit 8 x) :: uint8_t) = unat x"
proof -
  have "unat x div 256 < 256" using unat_uint16_lt[of x] by simp
  then show ?thesis
    by (simp add: unsigned_ucast_eq take_bit_eq_mod unat_drop_bit_eq drop_bit_eq_div unat_div)
qed

lemma narrow_or: "(ucast ((ucast (a :: uint8_t) :: c_int) OR (ucast (b :: uint8_t) :: c_int)) :: uint8_t) = a OR b"
  by (rule bit_word_eqI) (simp add: bit_simps)

lemma narrow_and_not:
  "(ucast ((ucast (a :: uint8_t) :: c_int) AND NOT (ucast (b :: uint8_t) :: c_int)) :: uint8_t) = a AND NOT b"
  by (rule bit_word_eqI) (auto simp add: bit_simps)

section \<open>The effect of each method\<close>

lemma report_fst: "fst (report m hid) = m\<lparr>m_scroll := 0\<rparr>"
  by (simp add: report_def Let_def)

lemma report_snd_scroll_byte:
  "\<exists>b. snd (report m hid) = hid @ [(1, b)] \<and> length b = 6 \<and> b ! 5 = m_scroll m"
  by (simp add: report_def SendReport_def Let_def)

lemma move_result:
  assumes "m_width m \<noteq> 0" "m_height m \<noteq> 0"
  shows "\<exists>m' hid'. move m x y hid = Inr (m', hid') \<and>
     m_buttons m' = m_buttons m \<and> m_width m' = m_width m \<and> m_height m' = m_height m \<and>
     m_autoReport m' = m_autoReport m \<and>
     (if m_width m \<noteq> 32767 \<or> m_height m \<noteq> 32767 then
        unat (m_x m') = (32767 * unat x div unat (m_width m)) mod 65536 \<and>
        unat (m_y m') = (32767 * unat y div unat (m_height m)) mod 65536
      else m_x m' = x \<and> m_y m' = y)"
  using assms by (simp add: move_def report_def Let_def unat_rescale)

lemma press_fst:
  "fst (press m b hid) =
     m\<lparr>m_buttons := m_buttons m OR b, m_scroll := (if m_autoReport m then 0 else m_scroll m)\<rparr>"
  by (simp add: press_def report_def Let_def narrow_or)

lemma release_fst:
  "fst (release m b hid) =
     m\<lparr>m_buttons := m_buttons m AND NOT b, m_scroll := (if m_autoReport m then 0 else m_scroll m)\<rparr>"
  by (simp add: release_def report_def Let_def narrow_and_not)

lemma scroll_fst:
  "fst (scroll m w hid) = m\<lparr>m_scroll := (if m_autoReport m then 0 else w)\<rparr>"
  by (simp add: scroll_def report_def Let_def)

section \<open>Rescaling in move\<close>

text \<open>
  C1 (as amended). With a reference resolution of at least 1 by 1, \<open>move\<close> returns.
  When the resolution is not 32767 by 32767, the stored \<open>x\<close> is the low 16 bits of
  \<open>floor (32767 * x / width)\<close>, and the floor itself whenever \<open>x \<le> width\<close>; likewise
  for \<open>y\<close> and the height. When the resolution is 32767 by 32767, \<open>x\<close> and \<open>y\<close> are
  stored unchanged. At 1920 by 1080 the input (960, 540) is stored as (16383, 16383).
\<close>

theorem move_stores_rescaled:
  assumes "m_width m \<noteq> 0" and "m_height m \<noteq> 0"
  shows "\<exists>m' hid'. move m x y hid = Inr (m', hid') \<and>
     (if m_width m \<noteq> 32767 \<or> m_height m \<noteq> 32767 then
        unat (m_x m') = (32767 * unat x div unat (m_width m)) mod 65536 \<and>
        unat (m_y m') = (32767 * unat y div unat (m_height m)) mod 65536 \<and>
        (unat x \<le> unat (m_width m) \<longrightarrow> unat (m_x m') = 32767 * unat x div unat (m_width m)) \<and>
        (unat y \<le> unat (m_height m) \<longrightarrow> unat (m_y m') = 32767 * unat y div unat (m_height m))
      else m_x m' = x \<and> m_y m' = y) \<and>
     (m_width m = 1920 \<and> m_height m = 1080 \<and> x = 960 \<and> y = 540 \<longrightarrow>
        m_x m' = 16383 \<and> m_y m' = 16383)"
proof -
  obtain m' hid' where mv: "move m x y hid = Inr (m', hid')"
    and sc: "if m_width m \<noteq> 32767 \<or> m_height m \<noteq> 32767 then
        unat (m_x m') = (32767 * unat x div unat (m_width m)) mod 65536 \<and>
        unat (m_y m') = (32767 * unat y div unat (m_height m)) mod 65536
      else m_x m' = x \<and> m_y m' = y"
    using move_result[OF assms, of x y hid] by blast
  have ex_x: "unat (m_x m') = 32767 * unat x div unat (m_width m)"
    if "m_width m \<noteq> 32767 \<or> m_height m \<noteq> 32767" "unat x \<le> unat (m_width m)"
    using that sc rescale_le[OF that(2) assms(1)] by simp
  have ex_y: "unat (m_y m') = 32767 * unat y div unat (m_height m)"
    if "m_width m \<noteq> 32767 \<or> m_height m \<noteq> 32767" "unat y \<le> unat (m_height m)"
    using that sc rescale_le[OF that(2) assms(2)] by simp
  have example: "m_x m' = 16383 \<and> m_y m' = 16383"
    if "m_width m = 1920 \<and> m_height m = 1080 \<and> x = 960 \<and> y = 540"
  proof -
    have "unat (m_x m') = unat (16383 :: uint16_t)" "unat (m_y m') = unat (16383 :: uint16_t)"
      using that sc by simp_all
    then show ?thesis by (simp only: word_unat_eq_iff)
  qed
  show ?thesis
    using mv sc ex_x ex_y example by (cases "m_width m \<noteq> 32767 \<or> m_height m \<noteq> 32767") auto
qed

theorem move_stores_rescaled_witness:
  "\<exists>m' hid'. move (init AbsMouse_ctor 1920 1080 True) 960 540 [] = Inr (m', hid') \<and>
     m_x m' = 16383 \<and> m_y m' = 16383"
  using move_stores_rescaled [of "init AbsMouse_ctor 1920 1080 True" 960 540 "[]"]
  by (auto simp add: init_def AbsMouse_ctor_def)

text \<open>
  The quotient is not stored exactly for every input: at 1920 by 1080 the input
  \<open>x = 3841\<close> has \<open>floor (32767 * 3841 / 1920) = 65551\<close>, and the 16-bit member
  keeps 15.
\<close>

theorem move_floor_counterexample:
  "move AbsMouse_ctor 3841 0 [] = Inr (AbsMouse_ctor\<lparr>m_x := 15\<rparr>, []) \<and>
   unat (m_x (AbsMouse_ctor\<lparr>m_x := 15\<rparr>)) \<noteq> 32767 * unat (3841 :: uint16_t) div unat (m_width AbsMouse_ctor)"
  by (simp add: move_def AbsMouse_ctor_def)

section \<open>The range of the stored coordinates\<close>

lemma step_in_range:
  assumes "coords_in_range m" "m_width m \<noteq> 0" "m_height m \<noteq> 0"
    and "ops_within (m_width m) (m_height m) (a # ops)"
  shows "\<exists>m' hid'. step (m, hid) a = Inr (m', hid') \<and> coords_in_range m' \<and>
           m_width m' \<noteq> 0 \<and> m_height m' \<noteq> 0 \<and> ops_within (m_width m') (m_height m') ops"
proof (cases a)
  case (Init w h ar)
  then show ?thesis using assms
    by (simp add: init_def coords_in_range_def ucast_16_32_eq_0)
next
  case (Move x y)
  with assms have le: "unat x \<le> unat (m_width m)" "unat y \<le> unat (m_height m)"
    and rest: "ops_within (m_width m) (m_height m) ops"
    by (simp_all add: word_le_nat_alt unat_ucast_16_32)
  obtain m' hid' where mv: "move m x y hid = Inr (m', hid')"
    and fr: "m_width m' = m_width m" "m_height m' = m_height m"
    and sc: "if m_width m \<noteq> 32767 \<or> m_height m \<noteq> 32767 then
        unat (m_x m') = (32767 * unat x div unat (m_width m)) mod 65536 \<and>
        unat (m_y m') = (32767 * unat y div unat (m_height m)) mod 65536
      else m_x m' = x \<and> m_y m' = y"
    using move_result[OF assms(2,3), of x y hid] by blast
  have "coords_in_range m'"
  proof (cases "m_width m \<noteq> 32767 \<or> m_height m \<noteq> 32767")
    case True
    then show ?thesis
      using sc rescale_le[OF le(1) assms(2)] rescale_le[OF le(2) assms(3)]
      by (simp add: coords_in_range_def)
  next
    case False
    then show ?thesis using sc le by (simp add: coords_in_range_def)
  qed
  then show ?thesis using Move mv fr rest assms(2,3) by simp
next
  case (Scroll w)
  then show ?thesis using assms by (simp add: scroll_def report_def Let_def coords_in_range_def)
next
  case (Press b)
  then show ?thesis using assms by (simp add: press_def report_def Let_def coords_in_range_def)
next
  case (Release b)
  then show ?thesis using assms by (simp add: release_def report_def Let_def coords_in_range_def)
next
  case Report
  then show ?thesis using assms by (simp add: report_def Let_def coords_in_range_def)
qed

text \<open>
  C2 (as amended). From a state whose coordinates are in 0..32767 and whose reference
  resolution is at least 1 by 1, every sequence of init, move, scroll, press, release and
  report in which each init sets a resolution of at least 1 by 1 and each move passes
  \<open>x \<le> width\<close> and \<open>y \<le> height\<close> of the resolution then in force runs without error
  and leaves the stored coordinates in 0..32767.
\<close>

theorem coords_stay_in_range:
  assumes "coords_in_range m" and "m_width m \<noteq> 0" and "m_height m \<noteq> 0"
    and "ops_within (m_width m) (m_height m) ops"
  shows "\<exists>m' hid'. run (m, hid) ops = Inr (m', hid') \<and> coords_in_range m'"
  using assms
proof (induction ops arbitrary: m hid)
  case Nil
  then show ?case by simp
next
  case (Cons a ops)
  obtain m1 hid1 where st: "step (m, hid) a = Inr (m1, hid1)" and inv: "coords_in_range m1"
    "m_width m1 \<noteq> 0" "m_height m1 \<noteq> 0" "ops_within (m_width m1) (m_height m1) ops"
    using step_in_range[OF Cons.prems, of hid] by blast
  from Cons.IH[OF inv, of hid1] st show ?case by simp
qed

theorem coords_stay_in_range_witness:
  "\<exists>m' hid'. run (AbsMouse_ctor, [])
      [Move 1920 1080, Init 800 600 True, Move 400 600, Scroll 3, Press 1, Report, Release 1] = Inr (m', hid') \<and>
     coords_in_range m'"
  using coords_stay_in_range [of AbsMouse_ctor
      "[Move 1920 1080, Init 800 600 True, Move 400 600, Scroll 3, Press 1, Report, Release 1]" "[]"]
  by (simp add: AbsMouse_ctor_def coords_in_range_def)

text \<open>
  Without the bound on the input the range is left: at 1920 by 1080, \<open>move(1921, 0)\<close>
  stores \<open>x = 32784\<close>.
\<close>

theorem coords_in_range_counterexample:
  "run (AbsMouse_ctor, []) [Init 1920 1080 False, Move 1921 0] =
     Inr (AbsMouse_ctor\<lparr>m_x := 32784\<rparr>, []) \<and>
   \<not> coords_in_range (AbsMouse_ctor\<lparr>m_x := 32784\<rparr>)"
  by (simp add: move_def init_def AbsMouse_ctor_def coords_in_range_def)

section \<open>The scroll delta is one-shot\<close>

lemma step_keeps_scroll_zero:
  assumes "m_scroll m = 0" "\<not> is_Scroll a" "step (m, hid) a = Inr (m', hid')"
  shows "m_scroll m' = 0"
proof (cases a)
  case (Move x y)
  then show ?thesis using assms
    by (auto simp add: move_def report_def Let_def split: if_splits)
qed (use assms in \<open>auto simp add: init_def press_def release_def report_def Let_def split: if_splits\<close>)

lemma run_keeps_scroll_zero:
  assumes "m_scroll m = 0" "\<not> list_ex is_Scroll ops" "run (m, hid) ops = Inr (m', hid')"
  shows "m_scroll m' = 0"
  using assms
proof (induction ops arbitrary: m hid)
  case Nil
  then show ?case by simp
next
  case (Cons a ops)
  then obtain m1 hid1 where st: "step (m, hid) a = Inr (m1, hid1)"
    and rn: "run (m1, hid1) ops = Inr (m', hid')"
    by (auto split: sum.splits)
  have "m_scroll m1 = 0" using step_keeps_scroll_zero[OF Cons.prems(1) _ st] Cons.prems(2) by simp
  then show ?case using Cons.IH[OF _ _ rn] Cons.prems(2) by simp
qed

text \<open>
  C3. \<open>report\<close> sets the scroll delta to 0 and leaves every other member unchanged.
  After \<open>scroll(5)\<close> and a report, the next report carries the scroll byte 0; and after
  any report, whatever commands other than scroll follow, the scroll delta is 0 and a
  report carries the scroll byte 0.
\<close>

theorem report_resets_scroll:
  "fst (report m hid) = m\<lparr>m_scroll := 0\<rparr> \<and>
   (\<exists>m' hid' b. run (m, hid) [Scroll 5, Report, Report] = Inr (m', hid' @ [(1, b)]) \<and>
      length b = 6 \<and> b ! 5 = 0) \<and>
   (\<forall>ops m1 hid1. \<not> list_ex is_Scroll ops \<longrightarrow> run (report m hid) ops = Inr (m1, hid1) \<longrightarrow>
      m_scroll m1 = 0 \<and>
      (\<exists>b. snd (report m1 hid1) = hid1 @ [(1, b)] \<and> length b = 6 \<and> b ! 5 = 0))"
proof -
  have a: "fst (report m hid) = m\<lparr>m_scroll := 0\<rparr>" by (rule report_fst)
  have b: "\<exists>m' hid' b. run (m, hid) [Scroll 5, Report, Report] = Inr (m', hid' @ [(1, b)]) \<and>
      length b = 6 \<and> b ! 5 = 0"
    by (simp add: scroll_def report_def SendReport_def Let_def)
  have c: "m_scroll m1 = 0 \<and>
      (\<exists>b. snd (report m1 hid1) = hid1 @ [(1, b)] \<and> length b = 6 \<and> b ! 5 = 0)"
    if "\<not> list_ex is_Scroll ops" "run (report m hid) ops = Inr (m1, hid1)" for ops m1 hid1
  proof -
    have rn: "run (m\<lparr>m_scroll := 0\<rparr>, snd (report m hid)) ops = Inr (m1, hid1)"
      using that(2) report_fst[of m hid] by (metis prod.collapse)
    have z: "m_scroll m1 = 0"
      by (rule run_keeps_scroll_zero[OF _ that(1) rn]) simp
    then show ?thesis using report_snd_scroll_byte[of m1 hid1] by simp
  qed
  show ?thesis using a b c by blast
qed

theorem report_resets_scroll_witness:
  "\<exists>b. snd (report (fst (report (fst (scroll AbsMouse_ctor 5 [])) [])) []) = [(1, b)] \<and> b ! 5 = 0"
  using report_resets_scroll [of "fst (scroll AbsMouse_ctor 5 [])" "[]"]
  by (simp add: scroll_def report_def SendReport_def Let_def AbsMouse_ctor_def)

section \<open>The report buffer\<close>

text \<open>
  C4. \<open>report\<close> hands the USB stack exactly one report, with id 1 and a buffer of 6
  bytes: the buttons in byte 0, \<open>x\<close> little-endian in bytes 1 and 2, \<open>y\<close>
  little-endian in bytes 3 and 4, and the signed scroll delta in byte 5.
\<close>

theorem report_buffer_layout:
  "\<exists>b. snd (report m hid) = hid @ [(1, b)] \<and> length b = 6 \<and>
     b ! 0 = m_buttons m \<and>
     unat (b ! 1) + 256 * unat (b ! 2) = unat (m_x m) \<and>
     unat (b ! 3) + 256 * unat (b ! 4) = unat (m_y m) \<and>
     b ! 5 = m_scroll m \<and> sint (b ! 5) = sint (m_scroll m)"
  by (simp add: report_def SendReport_def Let_def ucast_and_FF little_endian_bytes)

section \<open>Buttons\<close>

text \<open>
  C5 (as amended). \<open>press b\<close> sets the buttons to \<open>buttons OR b\<close> and \<open>release b\<close>
  to \<open>buttons AND NOT b\<close>; each is idempotent on the state; neither changes the stored
  \<open>x\<close>, \<open>y\<close>, width or height. The scroll delta is unchanged when automatic reports
  are off, and is 0 afterwards when they are on.
\<close>

theorem press_release_buttons:
  "m_buttons (fst (press m b hid)) = m_buttons m OR b \<and>
   m_buttons (fst (release m b hid)) = m_buttons m AND NOT b \<and>
   fst (press (fst (press m b hid)) b hid') = fst (press m b hid) \<and>
   fst (release (fst (release m b hid)) b hid') = fst (release m b hid) \<and>
   m_x (fst (press m b hid)) = m_x m \<and> m_x (fst (release m b hid)) = m_x m \<and>
   m_y (fst (press m b hid)) = m_y m \<and> m_y (fst (release m b hid)) = m_y m \<and>
   m_width (fst (press m b hid)) = m_width m \<and> m_width (fst (release m b hid)) = m_width m \<and>
   m_height (fst (press m b hid)) = m_height m \<and> m_height (fst (release m b hid)) = m_height m \<and>
   m_scroll (fst (press m b hid)) = (if m_autoReport m then 0 else m_scroll m) \<and>
   m_scroll (fst (release m b hid)) = (if m_autoReport m then 0 else m_scroll m)"
  by (simp add: press_fst release_fst)

theorem press_release_buttons_witness:
  "m_buttons (fst (press (AbsMouse_ctor\<lparr>m_buttons := 4\<rparr>) 1 [])) = 5 \<and>
   m_buttons (fst (release (AbsMouse_ctor\<lparr>m_buttons := 5\<rparr>) 4 [])) = 1"
  using press_release_buttons [of "AbsMouse_ctor\<lparr>m_buttons := 4\<rparr>" 1 "[]" "[]"]
    press_release_buttons [of "AbsMouse_ctor\<lparr>m_buttons := 5\<rparr>" 4 "[]" "[]"]
  by (simp add: AbsMouse_ctor_def)

text \<open>
  With automatic reports on, \<open>press\<close> does change the stored scroll delta: after
  \<open>scroll(5)\<close> with reports off and \<open>init(1920, 1080, true)\<close>, \<open>press(1)\<close> leaves 0.
\<close>

theorem press_keeps_scroll_counterexample:
  "m_scroll (fst (press (init (fst (scroll AbsMouse_ctor 5 [])) 1920 1080 True) 1 [])) \<noteq>
   m_scroll (init (fst (scroll AbsMouse_ctor 5 [])) 1920 1080 True)"
  by (simp add: press_fst scroll_fst init_def AbsMouse_ctor_def)

section \<open>The constructed state and the defaults of init\<close>

lemma step_without_auto_report:
  assumes "\<not> m_autoReport m" "m_width m \<noteq> 0" "m_height m \<noteq> 0" "\<not> is_Init a" "\<not> is_Report a"
  shows "\<exists>m'. step (m, hid) a = Inr (m', hid) \<and> \<not> m_autoReport m' \<and>
           m_width m' = m_width m \<and> m_height m' = m_height m"
  using assms
  by (cases a) (simp_all add: move_def scroll_def press_def release_def Let_def)

lemma run_without_auto_report:
  assumes "\<not> m_autoReport m" "m_width m \<noteq> 0" "m_height m \<noteq> 0"
    "\<not> list_ex is_Init ops" "\<not> list_ex is_Report ops"
  shows "\<exists>m'. run (m, hid) ops = Inr (m', hid)"
  using assms
proof (induction ops arbitrary: m)
  case Nil
  then show ?case by simp
next
  case (Cons a ops)
  obtain m1 where st: "step (m, hid) a = Inr (m1, hid)" and inv: "\<not> m_autoReport m1"
    "m_width m1 = m_width m" "m_height m1 = m_height m"
    using step_without_auto_report[of m a hid] Cons.prems by auto
  have "\<exists>m'. run (m1, hid) ops = Inr (m', hid)"
    using Cons.IH[of m1] inv Cons.prems by simp
  then show ?case using st by simp
qed

text \<open>
  C9. The constructor leaves buttons, scroll, \<open>x\<close> and \<open>y\<close> at 0, the reference
  resolution at 1920 by 1080 and automatic reports off: \<open>move\<close> on the constructed
  state rescales against 1920 by 1080, and no sequence of move, scroll, press and release
  hands a report to the USB stack. The default arguments of \<open>init\<close> (32767, 32767, true)
  take effect only when \<open>init\<close> is called with them: then \<open>move\<close> stores its arguments
  unchanged and sends a report.
\<close>

theorem default_constructed_state:
  "m_buttons AbsMouse_ctor = 0 \<and> m_scroll AbsMouse_ctor = 0 \<and>
   m_x AbsMouse_ctor = 0 \<and> m_y AbsMouse_ctor = 0 \<and>
   m_width AbsMouse_ctor = 1920 \<and> m_height AbsMouse_ctor = 1080 \<and>
   \<not> m_autoReport AbsMouse_ctor \<and>
   (\<exists>m'. move AbsMouse_ctor x y hid = Inr (m', hid) \<and>
      unat (m_x m') = (32767 * unat x div 1920) mod 65536 \<and>
      unat (m_y m') = (32767 * unat y div 1080) mod 65536) \<and>
   (\<forall>ops. \<not> list_ex is_Init ops \<longrightarrow> \<not> list_ex is_Report ops \<longrightarrow>
      (\<exists>m'. run (AbsMouse_ctor, hid) ops = Inr (m', hid))) \<and>
   m_width (init_default m) = 32767 \<and> m_height (init_default m) = 32767 \<and>
   m_autoReport (init_default m) \<and>
   (\<exists>m' hid'. move (init_default m) x y hid = Inr (m', hid') \<and> m_x m' = x \<and> m_y m' = y \<and>
      length hid' = Suc (length hid))"
proof -
  have fields: "m_buttons AbsMouse_ctor = 0 \<and> m_scroll AbsMouse_ctor = 0 \<and>
     m_x AbsMouse_ctor = 0 \<and> m_y AbsMouse_ctor = 0 \<and>
     m_width AbsMouse_ctor = 1920 \<and> m_height AbsMouse_ctor = 1080 \<and>
     \<not> m_autoReport AbsMouse_ctor"
    by (simp add: AbsMouse_ctor_def)
  have mv: "\<exists>m'. move AbsMouse_ctor x y hid = Inr (m', hid) \<and>
      unat (m_x m') = (32767 * unat x div 1920) mod 65536 \<and>
      unat (m_y m') = (32767 * unat y div 1080) mod 65536"
    by (simp add: move_def Let_def AbsMouse_ctor_def unat_rescale)
  have quiet: "\<exists>m'. run (AbsMouse_ctor, hid) ops = Inr (m', hid)"
    if "\<not> list_ex is_Init ops" "\<not> list_ex is_Report ops" for ops
    using run_without_auto_report[of AbsMouse_ctor ops hid] that fields by simp
  have dflt: "m_width (init_default m) = 32767 \<and> m_height (init_default m) = 32767 \<and>
     m_autoReport (init_default m)"
    by (simp add: init_default_def init_def)
  have dmv: "\<exists>m' hid'. move (init_default m) x y hid = Inr (m', hid') \<and> m_x m' = x \<and> m_y m' = y \<and>
      length hid' = Suc (length hid)"
    by (simp add: move_def Let_def init_default_def init_def report_def SendReport_def)
  show ?thesis using fields mv quiet dflt dmv by blast
qed

theorem default_constructed_state_witness:
  "(\<exists>m'. run (AbsMouse_ctor, []) [Move 960 540, Press 1, Scroll 2, Release 1] = Inr (m', [])) \<and>
   (\<exists>m'. move AbsMouse_ctor 960 540 [] = Inr (m', []) \<and> m_x m' = 16383 \<and> m_y m' = 16383)"
  using default_constructed_state [of 960 540 "[]" AbsMouse_ctor]
  by (simp add: move_def scroll_def press_def release_def Let_def AbsMouse_ctor_def)

section \<open>Division by zero in move\<close>

text \<open>
  C10. \<open>move\<close> fails with a division by zero exactly when the width or the height of
  the reference resolution is 0, and returns exactly when both are at least 1; \<open>init\<close>
  stores a width or a height of 0 as it is given, after which \<open>move\<close> fails.
\<close>

theorem move_division_by_zero:
  "((\<exists>e. move m x y hid = Inl e) = (m_width m = 0 \<or> m_height m = 0)) \<and>
   ((\<exists>s. move m x y hid = Inr s) = (m_width m \<noteq> 0 \<and> m_height m \<noteq> 0)) \<and>
   m_width (init m 0 height autoReport) = 0 \<and>
   m_height (init m width 0 autoReport) = 0 \<and>
   move (init m 0 height autoReport) x y hid = Inl DivisionByZero \<and>
   move (init m width 0 autoReport) x y hid = Inl DivisionByZero"
  by (simp add: move_def init_def Let_def)

theorem move_division_by_zero_witness:
  "move (init AbsMouse_ctor 0 1080 False) 10 10 [] = Inl DivisionByZero \<and>
   move (init AbsMouse_ctor 1920 0 False) 10 10 [] = Inl DivisionByZero \<and>
   (\<exists>s. move (init AbsMouse_ctor 1 1 False) 10 10 [] = Inr s)"
  using move_division_by_zero [of "init AbsMouse_ctor 1 1 False" 10 10 "[]" 1080 False 1920]
    move_division_by_zero [of AbsMouse_ctor 10 10 "[]" 1080 False 1920]
  by (simp add: init_def AbsMouse_ctor_def)

section \<open>The declared length\<close>

text \<open>
  C7. The maximum data length is 6 (the type byte, at most 4 payload bytes and the
  checksum byte) and the maximum frame length is 8, two more for the start marker and the
  length byte, so a frame of at most 5 data bytes takes at most 8 bytes on the wire. In
  \<open>AwaitingLength\<close> a declared length of 0 or above 6 discards the frame: the decoder
  returns to \<open>AwaitingStart\<close> with no frame, and goes on with the bytes that follow from
  there; a declared length from 1 to 6 is accepted.
\<close>

theorem declared_length_bounds:
  "unat MAX_DATA_LENGTH = 6 \<and> unat MAX_DATA_LENGTH = 1 + 4 + 1 \<and>
   unat MAX_FRAME_LENGTH = 8 \<and> unat MAX_FRAME_LENGTH = unat MAX_DATA_LENGTH + 2 \<and>
   (length data \<le> 5 \<longrightarrow> length (encode_frame data) \<le> unat MAX_FRAME_LENGTH) \<and>
   (d_state d = AwaitingLength \<longrightarrow> (L = 0 \<or> 6 < L) \<longrightarrow>
      decode_byte d L = (Decoder_init, None)) \<and>
   d_state Decoder_init = AwaitingStart \<and>
   (d_state d = AwaitingLength \<longrightarrow> L \<noteq> 0 \<longrightarrow> L \<le> 6 \<longrightarrow>
      d_state (fst (decode_byte d L)) = AwaitingData \<and> snd (decode_byte d L) = None) \<and>
   ((L = 0 \<or> 6 < L) \<longrightarrow> feed Decoder_init (FRAME_START # L # rest) = feed Decoder_init rest)"
proof -
  have lens: "unat MAX_DATA_LENGTH = 6 \<and> unat MAX_DATA_LENGTH = 1 + 4 + 1 \<and>
     unat MAX_FRAME_LENGTH = 8 \<and> unat MAX_FRAME_LENGTH = unat MAX_DATA_LENGTH + 2"
    by (simp add: MAX_DATA_LENGTH_def MAX_FRAME_LENGTH_def)
  have wire: "length data \<le> 5 \<longrightarrow> length (encode_frame data) \<le> unat MAX_FRAME_LENGTH"
    by (simp add: encode_frame_def MAX_DATA_LENGTH_def MAX_FRAME_LENGTH_def)
  have bad: "decode_byte d L = (Decoder_init, None)"
    if "d_state d = AwaitingLength" "L = 0 \<or> 6 < L"
    using that by (auto simp add: decode_byte_def MAX_DATA_LENGTH_def)
  have good: "d_state (fst (decode_byte d L)) = AwaitingData \<and> snd (decode_byte d L) = None"
    if "d_state d = AwaitingLength" "L \<noteq> 0" "L \<le> 6"
  proof -
    have "\<not> 6 < L" using that(3) by (simp add: not_less)
    then show ?thesis using that(1,2) by (simp add: decode_byte_def MAX_DATA_LENGTH_def)
  qed
  have resume: "feed Decoder_init (FRAME_START # L # rest) = feed Decoder_init rest"
    if "L = 0 \<or> 6 < L"
  proof -
    have "decode_byte Decoder_init FRAME_START = (Decoder_init\<lparr>d_state := AwaitingLength\<rparr>, None)"
      by (simp add: decode_byte_def Decoder_init_def)
    moreover have "decode_byte (Decoder_init\<lparr>d_state := AwaitingLength\<rparr>) L = (Decoder_init, None)"
      using that by (auto simp add: decode_byte_def MAX_DATA_LENGTH_def)
    ultimately show ?thesis by simp
  qed
  have start: "d_state Decoder_init = AwaitingStart" by (simp add: Decoder_init_def)
  show ?thesis using lens wire bad good resume start by blast
qed

theorem declared_length_bounds_witness:
  "decode_byte (Decoder_init\<lparr>d_state := AwaitingLength\<rparr>) 7 = (Decoder_init, None) \<and>
   feed Decoder_init [FRAME_START, 7, 0xAC, 0x01, 0xAD] = (Decoder_init, []) \<and>
   length (encode_frame [0xAA, 1, 2, 3, 4]) = 8"
  using declared_length_bounds [where d = "Decoder_init\<lparr>d_state := AwaitingLength\<rparr>" and L = 7
      and data = "[0xAA, 1, 2, 3, 4]" and rest = "[0xAC, 0x01, 0xAD]"]
  by (simp add: encode_frame_def decode_byte_def Decoder_init_def FRAME_START_def MAX_DATA_LENGTH_def)

section \<open>The checksum\<close>

lemma xor_checksum_update:
  "i < length ds \<Longrightarrow> xor_checksum (ds[i := ds ! i XOR v]) = xor_checksum ds XOR v"
proof (induction ds arbitrary: i)
  case Nil
  then show ?case by simp
next
  case (Cons d ds)
  show ?case
  proof (cases i)
    case 0
    then show ?thesis by (simp add: xor.assoc xor.commute xor.left_commute)
  next
    case (Suc j)
    then have "xor_checksum (ds[j := ds ! j XOR v]) = xor_checksum ds XOR v"
      using Cons.IH[of j] Cons.prems by simp
    then show ?thesis using Suc by (simp add: xor.assoc)
  qed
qed

lemma push_bit_uint8_nonzero: "k < 8 \<Longrightarrow> (push_bit k 1 :: uint8_t) \<noteq> 0"
  by simp

lemma xor_changes:
  assumes "(v :: uint8_t) \<noteq> 0"
  shows "a XOR v \<noteq> a"
proof
  assume "a XOR v = a"
  then have "a XOR (a XOR v) = a XOR a" by simp
  then have "v = 0" by (simp only: bit.xor_left_self bit.xor_self)
  with assms show False by simp
qed

lemma xor_checksum_flip:
  assumes "i < length ds" "k < 8"
  shows "xor_checksum (ds[i := flip_bit k (ds ! i)]) \<noteq> xor_checksum ds"
proof -
  have "xor_checksum (ds[i := flip_bit k (ds ! i)]) = xor_checksum ds XOR push_bit k 1"
    using assms(1) by (simp add: flip_bit_eq_xor xor_checksum_update)
  then show ?thesis
    using xor_changes[OF push_bit_uint8_nonzero[OF assms(2)], of "xor_checksum ds"] by simp
qed

lemma feed_data:
  assumes "d_state d = AwaitingData" "d_length d = length (d_buffer d) + length xs + 1"
  shows "feed d (xs @ [c]) =
     (Decoder_init,
      if xor_checksum (d_buffer d @ xs) = c
      then [\<lparr>f_type = hd (d_buffer d @ xs @ [c]), f_payload = butlast (tl (d_buffer d @ xs @ [c])),
             f_checksum = c\<rparr>]
      else [])"
  using assms
proof (induction xs arbitrary: d)
  case Nil
  then show ?case by (simp add: decode_byte_def Let_def)
next
  case (Cons x xs)
  let ?d = "d\<lparr>d_buffer := d_buffer d @ [x]\<rparr>"
  have st: "decode_byte d x = (?d, None)"
    using Cons.prems by (simp add: decode_byte_def Let_def)
  have "feed ?d (xs @ [c]) = (Decoder_init,
      if xor_checksum (d_buffer ?d @ xs) = c
      then [\<lparr>f_type = hd (d_buffer ?d @ xs @ [c]), f_payload = butlast (tl (d_buffer ?d @ xs @ [c])),
             f_checksum = c\<rparr>]
      else [])"
    by (rule Cons.IH) (use Cons.prems in simp_all)
  then show ?case using st by simp
qed

lemma unat_declared_length:
  "n \<le> 5 \<Longrightarrow> unat (of_nat (n + 1) :: uint8_t) = n + 1"
  by (simp add: unat_of_nat take_bit_nat_eq_self_iff del: of_nat_Suc of_nat_add)

lemma feed_frame:
  assumes "data \<noteq> []" "length data \<le> 5"
  shows "feed Decoder_init (FRAME_START # of_nat (length data + 1) # data @ [c]) =
     (Decoder_init,
      if xor_checksum data = c
      then [\<lparr>f_type = hd data, f_payload = tl data, f_checksum = c\<rparr>]
      else [])"
proof -
  let ?L = "of_nat (length data + 1) :: uint8_t"
  let ?d = "Decoder_init\<lparr>d_state := AwaitingData, d_length := length data + 1, d_buffer := []\<rparr>"
  have u: "unat ?L = length data + 1" by (rule unat_declared_length[OF assms(2)])
  have nz: "?L \<noteq> 0" using u by (metis unat_0 Suc_eq_plus1 nat.simps(3))
  have le: "\<not> MAX_DATA_LENGTH < ?L"
    using u assms(2) by (simp add: MAX_DATA_LENGTH_def word_less_nat_alt)
  have s1: "decode_byte Decoder_init FRAME_START = (Decoder_init\<lparr>d_state := AwaitingLength\<rparr>, None)"
    by (simp add: decode_byte_def Decoder_init_def)
  have s2: "decode_byte (Decoder_init\<lparr>d_state := AwaitingLength\<rparr>) ?L = (?d, None)"
    using nz le u by (simp add: decode_byte_def Decoder_init_def)
  have s3: "feed ?d (data @ [c]) = (Decoder_init,
      if xor_checksum (d_buffer ?d @ data) = c
      then [\<lparr>f_type = hd (d_buffer ?d @ data @ [c]), f_payload = butlast (tl (d_buffer ?d @ data @ [c])),
             f_checksum = c\<rparr>]
      else [])"
    by (rule feed_data) simp_all
  have "butlast (tl (data @ [c])) = tl data" using assms(1) by (cases data) simp_all
  then show ?thesis using s1 s2 s3 assms(1) by simp
qed

lemma flip_bit_at_data:
  assumes "i < length data"
  shows "flip_bit_at (encode_frame data) (i + 2) k =
     FRAME_START # of_nat (length data + 1) # data[i := flip_bit k (data ! i)] @ [xor_checksum data]"
  using assms by (simp add: flip_bit_at_def encode_frame_def list_update_append1 nth_append del: of_nat_Suc of_nat_add)

text \<open>
  C8. The checksum byte of a frame is the XOR of its data bytes (the type byte and the
  payload), and the decoder accepts the bytes of a frame exactly when the last byte is
  that XOR. For a well-formed frame of 1 to 5 data bytes, flipping any one bit of any
  data byte makes the comparison fail: the decoder emits no frame and is back in
  \<open>AwaitingStart\<close>, so the dispatcher is not invoked and no action reaches the output
  adapter.
\<close>

theorem checksum_detects_bit_flip:
  assumes "data \<noteq> []" and "length data \<le> 5" and "i < length data" and "k < 8"
  shows "last (encode_frame data) = xor_checksum data \<and>
     feed Decoder_init (FRAME_START # of_nat (length data + 1) # data @ [c]) =
       (Decoder_init,
        if xor_checksum data = c
        then [\<lparr>f_type = hd data, f_payload = tl data, f_checksum = c\<rparr>] else []) \<and>
     feed Decoder_init (encode_frame data) =
       (Decoder_init, [\<lparr>f_type = hd data, f_payload = tl data, f_checksum = xor_checksum data\<rparr>]) \<and>
     feed Decoder_init (flip_bit_at (encode_frame data) (i + 2) k) = (Decoder_init, []) \<and>
     hid_actions dispatch Decoder_init (flip_bit_at (encode_frame data) (i + 2) k) = []"
proof -
  let ?bad = "data[i := flip_bit k (data ! i)]"
  have ok: "feed Decoder_init (encode_frame data) =
       (Decoder_init, [\<lparr>f_type = hd data, f_payload = tl data, f_checksum = xor_checksum data\<rparr>])"
    unfolding encode_frame_def using feed_frame[OF assms(1,2), of "xor_checksum data"] by simp
  have "feed Decoder_init (FRAME_START # of_nat (length ?bad + 1) # ?bad @ [xor_checksum data]) =
     (Decoder_init,
      if xor_checksum ?bad = xor_checksum data
      then [\<lparr>f_type = hd ?bad, f_payload = tl ?bad, f_checksum = xor_checksum data\<rparr>]
      else [])"
    by (rule feed_frame) (use assms in simp_all)
  then have bad: "feed Decoder_init (flip_bit_at (encode_frame data) (i + 2) k) = (Decoder_init, [])"
    using xor_checksum_flip[OF assms(3,4)] flip_bit_at_data[OF assms(3), of k] by simp
  show ?thesis
    using ok bad feed_frame[OF assms(1,2), of c] by (simp add: hid_actions_def encode_frame_def)
qed

theorem checksum_detects_bit_flip_witness:
  "feed Decoder_init (encode_frame [0xAC, 0x01]) =
     (Decoder_init, [\<lparr>f_type = 0xAC, f_payload = [0x01], f_checksum = 0xAD\<rparr>]) \<and>
   flip_bit_at (encode_frame [0xAC, 0x01]) 3 0 = [0xAB, 0x03, 0xAC, 0x00, 0xAD] \<and>
   feed Decoder_init (flip_bit_at (encode_frame [0xAC, 0x01]) 3 0) = (Decoder_init, [])"
  using checksum_detects_bit_flip [where data = "[0xAC, 0x01]" and i = 1 and k = 0 and dispatch = "\<lambda>f. [f]"]
  by (simp add: encode_frame_def flip_bit_at_def FRAME_START_def flip_bit_eq_xor decode_byte_def
        Decoder_init_def MAX_DATA_LENGTH_def Let_def hid_actions_def)

section \<open>Frame type codes\<close>

text \<open>
  C6. The frame type codes are 0xA0 (relative move), 0xAA (absolute move), 0xAB (scroll),
  0xAC (mouse press), 0xAD (mouse release), 0xAE (set resolution), 0xBB (key press) and
  0xBC (key release), and the scroll code is the frame start marker.
\<close>

theorem frame_type_codes:
  "FrameType_code FRAME_TYPE_REL_MOUSE_MOVE = 0xA0 \<and>
   FrameType_code FRAME_TYPE_MOUSE_MOVE = 0xAA \<and>
   FrameType_code FRAME_TYPE_MOUSE_SCROLL = 0xAB \<and>
   FrameType_code FRAME_TYPE_MOUSE_PRESS = 0xAC \<and>
   FrameType_code FRAME_TYPE_MOUSE_RELEASE = 0xAD \<and>
   FrameType_code FRAME_TYPE_MOUSE_RESOLUTION = 0xAE \<and>
   FrameType_code FRAME_TYPE_KEY_PRESS = 0xBB \<and>
   FrameType_code FRAME_TYPE_KEY_RELEASE = 0xBC \<and>
   FrameType_code FRAME_TYPE_MOUSE_SCROLL = FRAME_START \<and>
   FRAME_START = 0xAB"
  by (simp add: FRAME_START_def)

end
